theory Spec2Isabelle
  imports Main "HOL-Library.Word" "HOL-Library.Char_ord"
begin

section \<open>Data model of \<open>rule.hpp\<close>\<close>

text \<open>
  Modelled from the spec: \<open>TextBuffer::Position\<close> is declared in \<open>text_buffer.hpp\<close>,
  which is not part of the sources. The specification describes it as a line/column
  snapshot; \<open>Rule::parse\<close> itself reads only \<open>line_number\<close>.
\<close>

record Position =
  line_number :: nat
  column_number :: nat

text \<open>
  The cursor. \<open>Rule::parse\<close> reads and assigns the member \<open>position\<close>; every other
  member of the class is hidden behind its methods, so the record is left extensible
  and the methods are taken as parameters (\<open>TextBuffer_methods\<close> below).
\<close>

record TextBuffer =
  position :: Position

text \<open>
  Modelled from the spec: the constructors \<open>SyntaxError(message, buffer)\<close> and
  \<open>ParseLogicError(message, buffer)\<close> are declared in \<open>syntax_error.hpp\<close>, which is not
  part of the sources. A diagnostic record is a message together with the position the
  buffer has when the record is built.
\<close>

datatype SyntaxError = SyntaxError (message: string) (error_position: Position)

text \<open>
  What can be thrown while \<open>Rule::parse\<close> runs: its own \<open>ParseLogicError\<close>, and
  \<open>std::bad_variant_access\<close> from \<open>std::get\<close> in \<open>add_parent_scope\<close>.
\<close>

datatype exception = ParseLogicError string Position | bad_variant_access

text \<open>
  \<open>std::variant<std::shared_ptr<Term>, std::vector<std::shared_ptr<Rule>>>\<close>: the first
  alternative is a pointer that may be null (\<open>None\<close>), and is what a default-constructed
  variant holds.
\<close>

datatype ('t, 'r) variant = Term_ptr "'t option" | Rule_vector "'r list"

datatype 't Rule = Rule
  (rule_value: "('t, 't Rule) variant")
  (rule_position: Position)
  (scope: "string list")
  (name: string)
  (terminal: bool)

text \<open>
  The outcome of a call: either it returns a value, or an exception leaves it. Both
  carry the buffer and the diagnostics sink as the call left them, since both are passed
  by reference.
\<close>

datatype ('v, 'b) outcome =
  Threw exception 'b "SyntaxError list"
| Returned 'v 'b "SyntaxError list"

text \<open>
  The methods of \<open>TextBuffer\<close> that \<open>Rule::parse\<close> calls (\<open>text_buffer.hpp\<close> is not part
  of the sources, so they are parameters of the model). \<open>skip_space0\<close> is the call
  \<open>skip_space()\<close> without an argument, whose default is not visible here.
\<close>

record 'b TextBuffer_methods =
  indentation :: "'b \<Rightarrow> 32 word"
  indentation_delta :: "nat \<Rightarrow> 'b \<Rightarrow> int"
  peek :: "'b \<Rightarrow> char"
  peek_char :: "char \<Rightarrow> 'b \<Rightarrow> bool"
  read :: "'b \<Rightarrow> char \<times> 'b"
  read_char :: "char \<Rightarrow> 'b \<Rightarrow> bool \<times> 'b"
  read_string :: "string \<Rightarrow> 'b \<Rightarrow> bool \<times> 'b"
  skip_space0 :: "'b \<Rightarrow> 'b"
  skip_space :: "bool \<Rightarrow> 'b \<Rightarrow> 'b"
  skip_whitespace :: "'b \<Rightarrow> 'b"
  skip_block :: "'b \<Rightarrow> 'b"
  end_reached :: "'b \<Rightarrow> bool"

text \<open>
  \<open>Term::parse(buffer, errors, true)\<close>, declared in \<open>term.hpp\<close> (not part of the sources):
  a parameter of the model. It receives the buffer and the sink by reference.
\<close>

type_synonym ('t, 'b) Term_parse =
  "'b \<Rightarrow> SyntaxError list \<Rightarrow> bool \<Rightarrow> ('t option, 'b) outcome"

section \<open>\<open>Rule::add_parent_scope\<close>\<close>

text \<open>
  Appends the parent's name to the scope of the rule and, when the rule is not terminal,
  of every rule below it. \<open>std::get\<close> throws when a non-terminal rule holds a term:
  that is the result \<open>None\<close>.
\<close>

fun add_parent_scope :: "string \<Rightarrow> 't Rule \<Rightarrow> 't Rule option" where
  "add_parent_scope parent (Rule v p s nm tm) =
     (if tm = False then
        (case v of
           Rule_vector children \<Rightarrow>
             map_option (\<lambda>cs. Rule (Rule_vector cs) p (s @ [parent]) nm tm)
               (those (map (add_parent_scope parent) children))
         | Term_ptr _ \<Rightarrow> None)
      else Some (Rule v p (s @ [parent]) nm tm))"

section \<open>\<open>Rule::parse\<close>\<close>

definition is_name_character :: "char \<Rightarrow> bool" where
  "is_name_character character \<longleftrightarrow>
     (character \<ge> CHR ''a'' \<and> character \<le> CHR ''z'') \<or> character = CHR ''_''"

text \<open>
  The name loop \<open>while(true) { ... rule->name += buffer.read(); ... }\<close>. Nothing in
  \<open>rule.hpp\<close> bounds it, so it runs on fuel; \<open>None\<close> is a loop that has not ended when
  the fuel has.
\<close>

fun scan_name ::
  "'b TextBuffer_methods \<Rightarrow> nat \<Rightarrow> 'b \<Rightarrow> string \<Rightarrow> (string \<times> 'b) option" where
  "scan_name buffer n b nm =
     (if is_name_character (peek buffer b) then
        (case n of
           0 \<Rightarrow> None
         | Suc m \<Rightarrow> (case read buffer b of (c, b') \<Rightarrow> scan_name buffer m b' (nm @ [c])))
      else Some (nm, b))"

text \<open>
  \<open>new Rule()\<close> value-initialises the object: \<open>terminal\<close> is \<open>false\<close>, the variant
  holds a null term pointer, name and scope are empty.
\<close>

definition new_Rule :: "Position \<Rightarrow> string \<Rightarrow> 't Rule" where
  "new_Rule p nm = Rule (Term_ptr None) p [] nm False"

text \<open>
  \<open>Rule::parse\<close>. The buffer and the sink are passed by reference: the model takes them
  and gives them back in the outcome. The child loop \<open>while(true)\<close> of the
  name-extension branch is \<open>parse_children\<close>; it carries the variables of the loop
  (\<open>children\<close>, \<open>errors_found\<close>) and ends with the code that follows the loop, so its
  result is the result of \<open>parse\<close>. Nothing in \<open>rule.hpp\<close> bounds the loop or the
  recursion: they run on the fuel \<open>n\<close>, spent only where the loop calls \<open>parse\<close> again,
  and \<open>None\<close> is a run that has not ended when the fuel has. The local
  \<open>start_indentation\<close> is computed and never read; the model leaves it out.
\<close>

fun parse ::
  "('x TextBuffer_scheme) TextBuffer_methods \<Rightarrow> ('t, 'x TextBuffer_scheme) Term_parse \<Rightarrow> nat \<Rightarrow>
   'x TextBuffer_scheme \<Rightarrow> SyntaxError list \<Rightarrow> 32 word \<Rightarrow>
   ('t Rule option, 'x TextBuffer_scheme) outcome option"
and parse_children ::
  "('x TextBuffer_scheme) TextBuffer_methods \<Rightarrow> ('t, 'x TextBuffer_scheme) Term_parse \<Rightarrow> nat \<Rightarrow>
   't Rule \<Rightarrow> 'x TextBuffer_scheme \<Rightarrow> SyntaxError list \<Rightarrow> 32 word \<Rightarrow> 't Rule list \<Rightarrow> bool \<Rightarrow>
   ('t Rule option, 'x TextBuffer_scheme) outcome option"
where
  "parse buffer Term_parse n b errors parent_count =
     (if indentation buffer b mod 4 \<noteq> 0 then
        Some (Returned None b (errors @ [SyntaxError ''invalid indentation level'' (position b)]))
      else if indentation buffer b \<noteq> parent_count * 4 then
        Some (Returned None b
          (errors @ [SyntaxError ''unexpected indentation increase'' (position b)]))
      else
        (case scan_name buffer n b [] of
           None \<Rightarrow> None
         | Some (nm, b1) \<Rightarrow>
             if nm = [] then Some (Threw (ParseLogicError ''no rule found'' (position b1)) b1 errors)
             else
               (case read_char buffer CHR '':'' (skip_space0 buffer b1) of
                  (True, b2) \<Rightarrow>
                    (case Term_parse (skip_space buffer True b2) errors True of
                       Threw x b3 errors3 \<Rightarrow> Some (Threw x b3 errors3)
                     | Returned None b3 errors3 \<Rightarrow>
                         Some (Returned None (skip_block buffer b3) errors3)
                     | Returned (Some term) b3 errors3 \<Rightarrow>
                         Some (Returned
                           (Some (Rule (Term_ptr (Some term)) (position b) [] nm True))
                           b3 errors3))
                | (False, b2) \<Rightarrow>
                    (case read_string buffer ''...'' b2 of
                       (True, b3) \<Rightarrow>
                         (let b4 = skip_space buffer True b3 in
                          if peek_char buffer CHR 0x0A b4 = False then
                            parse_children buffer Term_parse n (new_Rule (position b) nm) b4
                              (errors @ [SyntaxError (''trailing characters after '...'' @ [CHR 0x27]) (position b4)])
                              parent_count [] True
                          else
                            parse_children buffer Term_parse n (new_Rule (position b) nm) b4
                              errors parent_count [] False)
                     | (False, b3) \<Rightarrow>
                         Some (Returned None (skip_block buffer b3)
                           (errors @ [SyntaxError (''expected ':' or '...'' @ [CHR 0x27]) (position b3)]))))))"
| "parse_children buffer Term_parse n rule b errors parent_count children errors_found =
     (let delta = indentation_delta buffer (line_number (rule_position rule)) b in
      if delta \<le> 0 then
        (if errors_found then Some (Returned None b errors)
         else if children = [] then
           (let b' = b\<lparr>position := rule_position rule\<rparr> in
            Some (Returned None b'
              (errors @ [SyntaxError
                 (''no children found for name-extended rule '' @ [CHR 0x27] @ name rule @ [CHR 0x27])
                 (position b')])))
         else
           Some (Returned
             (Some (Rule (Rule_vector children) (rule_position rule) (scope rule) (name rule)
                (terminal rule)))
             b errors))
      else if delta \<noteq> 4 then
        (let b1 = skip_whitespace buffer b in
         Some (Returned None (skip_block buffer b1)
           (errors @ [SyntaxError ''unexpected indentation increase'' (position b1)])))
      else
        (case n of
           0 \<Rightarrow> None
         | Suc m \<Rightarrow>
             (case parse buffer Term_parse m (skip_whitespace buffer b) errors (parent_count + 1) of
                None \<Rightarrow> None
              | Some (Threw x b1 errors1) \<Rightarrow> Some (Threw x b1 errors1)
              | Some (Returned None b1 errors1) \<Rightarrow>
                  parse_children buffer Term_parse m rule (skip_block buffer b1) errors1
                    parent_count children True
              | Some (Returned (Some child) b1 errors1) \<Rightarrow>
                  if end_reached buffer b1 = False \<and> peek_char buffer CHR 0x0A b1 = False then
                    Some (Threw (ParseLogicError ''incomplete rule parse'' (position b1)) b1 errors1)
                  else
                    (case add_parent_scope (name rule) child of
                       None \<Rightarrow> Some (Threw bad_variant_access b1 errors1)
                     | Some child' \<Rightarrow>
                         parse_children buffer Term_parse m rule b1 errors1 parent_count
                           (children @ [child']) errors_found))))"

section \<open>A concrete buffer and term parser for running examples\<close>

text \<open>
  Modelled from the spec: \<open>text_buffer.hpp\<close> is not part of the sources. The buffer
  below follows the cursor interface of the specification: the text as its lines, a
  line/column position (both counted from 1; the column one past the end of a line is
  its newline), indentation as the number of leading spaces of a line, the indentation
  delta as the indentation of the line holding the next non-whitespace character (0 when
  there is none before the end of the input) minus that of the reference line, and block
  recovery as moving to the end of the last line of the block that the current line
  opens (the lines below it that are indented more).
  \<open>skip_space(true)\<close> must stop at a plain newline, since \<open>Rule::parse\<close> tests
  \<open>peek('\n')\<close> right after it; the flag lets it pass a backslash-newline continuation.
\<close>

record SourceBuffer = TextBuffer +
  source_lines :: "string list"

definition open_buffer :: "string list \<Rightarrow> SourceBuffer" where
  "open_buffer ls = \<lparr>position = \<lparr>line_number = 1, column_number = 1\<rparr>, source_lines = ls\<rparr>"

definition line_text :: "string list \<Rightarrow> nat \<Rightarrow> string" where
  "line_text ls k = (if 1 \<le> k \<and> k \<le> length ls then ls ! (k - 1) else [])"

definition line_indentation :: "string list \<Rightarrow> nat \<Rightarrow> nat" where
  "line_indentation ls k = length (takeWhile (\<lambda>c. c = CHR '' '') (line_text ls k))"

definition sb_end_reached :: "SourceBuffer \<Rightarrow> bool" where
  "sb_end_reached b =
     (let k = line_number (position b); c = column_number (position b); ls = source_lines b
      in k > length ls \<or> (k = length ls \<and> c > length (line_text ls k)))"

definition sb_peek :: "SourceBuffer \<Rightarrow> char" where
  "sb_peek b =
     (let k = line_number (position b); c = column_number (position b);
          l = line_text (source_lines b) k
      in if sb_end_reached b then CHR 0x00
         else if 1 \<le> c \<and> c \<le> length l then l ! (c - 1) else CHR 0x0A)"

definition sb_advance :: "SourceBuffer \<Rightarrow> SourceBuffer" where
  "sb_advance b =
     (let k = line_number (position b); c = column_number (position b);
          l = line_text (source_lines b) k
      in if sb_end_reached b then b
         else if c \<le> length l then b\<lparr>position := \<lparr>line_number = k, column_number = c + 1\<rparr>\<rparr>
         else b\<lparr>position := \<lparr>line_number = k + 1, column_number = 1\<rparr>\<rparr>)"

fun consume :: "string \<Rightarrow> SourceBuffer \<Rightarrow> SourceBuffer" where
  "consume [] b = b"
| "consume (c # cs) b = consume cs (sb_advance b)"

definition remaining :: "SourceBuffer \<Rightarrow> string" where
  "remaining b =
     (let k = line_number (position b); c = column_number (position b); ls = source_lines b
      in drop (c - 1) (line_text ls k) @ concat (map (\<lambda>l. CHR 0x0A # l) (drop k ls)))"

fun space_prefix :: "bool \<Rightarrow> string \<Rightarrow> string" where
  "space_prefix continuation [] = []"
| "space_prefix continuation [c] = (if c = CHR '' '' \<or> c = CHR 0x09 then [c] else [])"
| "space_prefix continuation (c # d # cs) =
     (if c = CHR '' '' \<or> c = CHR 0x09 then c # space_prefix continuation (d # cs)
      else if continuation \<and> c = CHR 0x5C \<and> d = CHR 0x0A then c # d # space_prefix continuation cs
      else [])"

definition is_whitespace :: "char \<Rightarrow> bool" where
  "is_whitespace c \<longleftrightarrow> c = CHR '' '' \<or> c = CHR 0x09 \<or> c = CHR 0x0A \<or> c = CHR 0x0D"

definition sb_skip_space :: "bool \<Rightarrow> SourceBuffer \<Rightarrow> SourceBuffer" where
  "sb_skip_space continuation b = consume (space_prefix continuation (remaining b)) b"

definition sb_skip_whitespace :: "SourceBuffer \<Rightarrow> SourceBuffer" where
  "sb_skip_whitespace b = consume (takeWhile is_whitespace (remaining b)) b"

definition sb_indentation :: "SourceBuffer \<Rightarrow> 32 word" where
  "sb_indentation b = of_nat (line_indentation (source_lines b) (line_number (position b)))"

definition sb_indentation_delta :: "nat \<Rightarrow> SourceBuffer \<Rightarrow> int" where
  "sb_indentation_delta reference_line b =
     (let next = sb_skip_whitespace b
      in (if sb_end_reached next then 0
          else int (line_indentation (source_lines b) (line_number (position next))))
         - int (line_indentation (source_lines b) reference_line))"

definition sb_read :: "SourceBuffer \<Rightarrow> char \<times> SourceBuffer" where
  "sb_read b = (sb_peek b, sb_advance b)"

definition sb_peek_char :: "char \<Rightarrow> SourceBuffer \<Rightarrow> bool" where
  "sb_peek_char c b \<longleftrightarrow> \<not> sb_end_reached b \<and> sb_peek b = c"

definition sb_read_char :: "char \<Rightarrow> SourceBuffer \<Rightarrow> bool \<times> SourceBuffer" where
  "sb_read_char c b = (if sb_peek_char c b then (True, sb_advance b) else (False, b))"

definition sb_read_string :: "string \<Rightarrow> SourceBuffer \<Rightarrow> bool \<times> SourceBuffer" where
  "sb_read_string s b =
     (if take (length s) (remaining b) = s then (True, consume s b) else (False, b))"

definition sb_skip_block :: "SourceBuffer \<Rightarrow> SourceBuffer" where
  "sb_skip_block b =
     (let k = line_number (position b); ls = source_lines b;
          deeper = takeWhile (\<lambda>l. length (takeWhile (\<lambda>c. c = CHR '' '') l) > line_indentation ls k)
                     (drop k ls);
          last_line = k + length deeper
      in if k > length ls then b
         else b\<lparr>position :=
                 \<lparr>line_number = last_line, column_number = length (line_text ls last_line) + 1\<rparr>\<rparr>)"

definition source_buffer :: "SourceBuffer TextBuffer_methods" where
  "source_buffer =
     \<lparr>indentation = sb_indentation, indentation_delta = sb_indentation_delta,
      peek = sb_peek, peek_char = sb_peek_char, read = sb_read, read_char = sb_read_char,
      read_string = sb_read_string, skip_space0 = sb_skip_space False,
      skip_space = sb_skip_space, skip_whitespace = sb_skip_whitespace,
      skip_block = sb_skip_block, end_reached = sb_end_reached\<rparr>"

text \<open>
  Modelled from the spec: \<open>term.hpp\<close> is not part of the sources, and the term grammar is
  outside the specification. For running examples a term is a single reference, a
  non-empty run of name characters; anything else is a failure with one diagnostic, as
  the interface of the sub-parser requires (it has appended its diagnostics when it
  returns the failure sentinel).
\<close>

datatype Term = Reference string

definition reference_parse :: "(Term, SourceBuffer) Term_parse" where
  "reference_parse b errors allow_newline =
     (let nm = takeWhile is_name_character (remaining b)
      in if nm = [] then Returned None b (errors @ [SyntaxError ''expected a term'' (position b)])
         else Returned (Some (Reference nm)) (consume nm b) errors)"

section \<open>Properties of rule trees\<close>

text \<open>
  The tag and the payload of a rule agree, throughout the tree: a terminal rule holds a
  term (a pointer that is not null), a rule that is not terminal holds a vector of
  children that is not empty.
\<close>

fun consistent :: "'t Rule \<Rightarrow> bool" where
  "consistent (Rule v p s nm tm) =
     (case v of
        Term_ptr t \<Rightarrow> tm \<and> t \<noteq> None
      | Rule_vector children \<Rightarrow> \<not> tm \<and> children \<noteq> [] \<and> list_all consistent children)"

text \<open>
  \<open>scoped ancestors r\<close>: the scope of \<open>r\<close> is \<open>ancestors\<close>, and the scope of every rule
  below it is the name of its parent followed by the scope of its parent. The list
  runs from the innermost enclosing rule to the outermost one.
\<close>

fun scoped :: "string list \<Rightarrow> 't Rule \<Rightarrow> bool" where
  "scoped ancestors (Rule v p s nm tm) =
     (s = ancestors \<and>
      (case v of
         Term_ptr t \<Rightarrow> True
       | Rule_vector children \<Rightarrow> list_all (scoped (nm # ancestors)) children))"


text \<open>
  The order as the specification words it, from the outermost enclosing rule to the
  innermost one: the scope of a child is the scope of its parent followed by the name of
  its parent. Used only to compare with what \<open>parse\<close> builds.
\<close>

fun scoped_outermost_first :: "string list \<Rightarrow> 't Rule \<Rightarrow> bool" where
  "scoped_outermost_first ancestors (Rule v p s nm tm) =
     (s = ancestors \<and>
      (case v of
         Term_ptr t \<Rightarrow> True
       | Rule_vector children \<Rightarrow> list_all (scoped_outermost_first (ancestors @ [nm])) children))"

text \<open>
  What the child loop of \<open>parse\<close> maintains: the rule under construction is not terminal
  and has an empty scope, and the children collected so far are consistent and scoped
  under its name. \<open>result_ok\<close> is what the loop then returns.
\<close>

definition children_ok :: "'t Rule \<Rightarrow> 't Rule list \<Rightarrow> bool" where
  "children_ok rule children \<longleftrightarrow>
     terminal rule = False \<and> scope rule = [] \<and>
     list_all consistent children \<and> list_all (scoped [name rule]) children"

definition result_ok :: "'t Rule \<Rightarrow> bool" where
  "result_ok r \<longleftrightarrow>
     consistent r \<and> scoped [] r \<and> terminal r = False \<and>
     (\<exists>cs. rule_value r = Rule_vector cs \<and> cs \<noteq> [])"

text \<open>
  The diagnostics sink as a call leaves it, and how it compares with the sink the call
  received: \<open>sink_extended\<close> when the old sink is a prefix of the new one (records
  were only appended, in order), \<open>sink_grown\<close> when at least one record was appended.
\<close>

fun diagnostics :: "('v, 'b) outcome \<Rightarrow> SyntaxError list" where
  "diagnostics (Threw x b errors) = errors"
| "diagnostics (Returned v b errors) = errors"

definition sink_extended :: "SyntaxError list \<Rightarrow> SyntaxError list \<Rightarrow> bool" where
  "sink_extended before after \<longleftrightarrow> take (length before) after = before"

definition sink_grown :: "SyntaxError list \<Rightarrow> SyntaxError list \<Rightarrow> bool" where
  "sink_grown before after \<longleftrightarrow> sink_extended before after \<and> length before < length after"

text \<open>
  What the specification says of the term sub-parser at its interface, as two conditions on
  the parameter: it only appends to the sink; and it returns a term without appending, and
  the failure sentinel only after appending at least one diagnostic.
\<close>

definition Term_parse_appends :: "('t, 'b) Term_parse \<Rightarrow> bool" where
  "Term_parse_appends Term_parse \<longleftrightarrow>
     (\<forall>b errors flag. sink_extended errors (diagnostics (Term_parse b errors flag)))"

definition Term_parse_reports :: "('t, 'b) Term_parse \<Rightarrow> bool" where
  "Term_parse_reports Term_parse \<longleftrightarrow>
     (\<forall>b errors flag b' errors'.
        (\<forall>term. Term_parse b errors flag = Returned (Some term) b' errors' \<longrightarrow> errors' = errors) \<and>
        (Term_parse b errors flag = Returned None b' errors' \<longrightarrow> sink_grown errors errors'))"

text \<open>
  What a call of \<open>parse\<close>, or of its child loop entered with the flag \<open>errors_found\<close>, has
  done to the sink when it returns: nothing when it returns a rule (and then the flag
  was not set), and at least one diagnostic, counting the one that set the flag, when it
  returns the failure sentinel.
\<close>

definition reported :: "SyntaxError list \<Rightarrow> bool \<Rightarrow> ('t Rule option, 'b) outcome \<Rightarrow> bool" where
  "reported errors errors_found out \<longleftrightarrow>
     (case out of
        Threw x b' errors' \<Rightarrow> True
      | Returned (Some r) b' errors' \<Rightarrow> errors' = errors \<and> errors_found = False
      | Returned None b' errors' \<Rightarrow>
          sink_extended errors errors' \<and> (errors_found \<or> sink_grown errors errors'))"

section \<open>Scope propagation keeps a tree well formed\<close>

declare parse.simps [simp del] parse_children.simps [simp del] scan_name.simps [simp del]

lemma those_map_Some:
  "those (map f xs) = Some ys \<longleftrightarrow> list_all2 (\<lambda>x y. f x = Some y) xs ys"
proof (induction xs arbitrary: ys)
  case Nil
  show ?case by auto
next
  case (Cons x xs)
  show ?case
  proof (cases "f x")
    case None
    then show ?thesis by (auto simp: list_all2_Cons1)
  next
    case (Some y)
    then show ?thesis using Cons.IH
      by (cases "those (map f xs)") (auto simp: list_all2_Cons1)
  qed
qed

lemma list_all2_transfer_all:
  assumes "list_all2 R xs ys" and "list_all P xs"
    and "\<And>x y. x \<in> set xs \<Longrightarrow> R x y \<Longrightarrow> P x \<Longrightarrow> Q y"
  shows "list_all Q ys"
  using assms by (induction xs ys rule: list_all2_induct) auto

lemma add_parent_scope_consistent:
  "consistent r \<Longrightarrow> add_parent_scope parent r = Some r' \<Longrightarrow> consistent r'"
proof (induction parent r arbitrary: r' rule: add_parent_scope.induct)
  case (1 parent v p s nm tm)
  show ?case
  proof (cases v)
    case (Term_ptr t)
    with "1.prems" show ?thesis by (auto split: if_splits)
  next
    case (Rule_vector children)
    with "1.prems" obtain cs where cs: "list_all2 (\<lambda>x y. add_parent_scope parent x = Some y) children cs"
      and r': "r' = Rule (Rule_vector cs) p (s @ [parent]) nm tm" and tm: "tm = False"
      by (auto simp: those_map_Some split: if_splits)
    from "1.prems"(1) Rule_vector have all: "list_all consistent children" and ne: "children \<noteq> []"
      by auto
    have "list_all consistent cs"
      using cs all "1.IH"[OF tm Rule_vector] by (rule list_all2_transfer_all)
    moreover have "cs \<noteq> []" using cs ne by (auto dest: list_all2_lengthD)
    ultimately show ?thesis using r' tm by simp
  qed
qed

lemma add_parent_scope_scoped:
  "consistent r \<Longrightarrow> scoped ancestors r \<Longrightarrow> add_parent_scope parent r = Some r' \<Longrightarrow>
   scoped (ancestors @ [parent]) r'"
proof (induction parent r arbitrary: r' ancestors rule: add_parent_scope.induct)
  case (1 parent v p s nm tm)
  show ?case
  proof (cases v)
    case (Term_ptr t)
    with "1.prems" show ?thesis by (auto split: if_splits)
  next
    case (Rule_vector children)
    with "1.prems"(1) have tm: "tm = False" and cons: "list_all consistent children" by auto
    with "1.prems" Rule_vector obtain cs
      where cs: "list_all2 (\<lambda>x y. add_parent_scope parent x = Some y) children cs"
      and r': "r' = Rule (Rule_vector cs) p (s @ [parent]) nm tm"
      by (auto simp: those_map_Some)
    from "1.prems"(2) Rule_vector have "list_all (scoped (nm # ancestors)) children"
      and s: "s = ancestors" by auto
    with cons have all: "list_all (\<lambda>c. consistent c \<and> scoped (nm # ancestors) c) children"
      by (simp add: list_all_iff)
    have "list_all (scoped ((nm # ancestors) @ [parent])) cs"
      using cs all "1.IH"[OF tm Rule_vector] by (rule list_all2_transfer_all) auto
    then show ?thesis using r' s by simp
  qed
qed

lemma children_ok_append:
  assumes "children_ok rule children" and "consistent child" and "scoped [] child"
    and "add_parent_scope (name rule) child = Some child'"
  shows "children_ok rule (children @ [child'])"
  using assms add_parent_scope_consistent[OF assms(2,4)]
    add_parent_scope_scoped[OF assms(2,3,4)]
  by (simp add: children_ok_def)

lemma children_ok_finish:
  assumes "children_ok rule children" and "children \<noteq> []"
  shows "result_ok (Rule (Rule_vector children) (rule_position rule) (scope rule) (name rule)
           (terminal rule))"
  using assms by (simp add: children_ok_def result_ok_def)

lemma parse_children_ok_step:
  assumes parse_ok: "\<And>b errors pc r b' errors'.
      parse buffer Term_parse m b errors pc = Some (Returned (Some r) b' errors') \<Longrightarrow>
      consistent r \<and> scoped [] r"
    and children_ok: "\<And>rule b errors pc children ef r b' errors'.
      parse_children buffer Term_parse m rule b errors pc children ef
        = Some (Returned (Some r) b' errors') \<Longrightarrow>
      children_ok rule children \<Longrightarrow> result_ok r"
    and run: "parse_children buffer Term_parse (Suc m) rule b errors pc children ef
        = Some (Returned (Some r) b' errors')"
    and ok: "children_ok rule children"
  shows "result_ok r"
proof -
  let ?delta = "indentation_delta buffer (line_number (rule_position rule)) b"
  show ?thesis
  proof (cases "?delta \<le> 0")
    case True
    with run ok show ?thesis
      by (auto simp: parse_children.simps Let_def children_ok_finish split: if_splits)
  next
    case False
    show ?thesis
    proof (cases "?delta = 4")
      case False
      with \<open>\<not> ?delta \<le> 0\<close> run show ?thesis
        by (simp add: parse_children.simps Let_def)
    next
      case True
      obtain out where out:
        "parse buffer Term_parse m (skip_whitespace buffer b) errors (pc + 1) = Some out"
        using run True by (cases "parse buffer Term_parse m (skip_whitespace buffer b) errors (pc + 1)")
          (auto simp: parse_children.simps Let_def)
      show ?thesis
      proof (cases out)
        case (Threw x b1 e1)
        with run True out show ?thesis by (simp add: parse_children.simps Let_def)
      next
        case (Returned v b1 e1)
        show ?thesis
        proof (cases v)
          case None
          with run True out Returned have
            "parse_children buffer Term_parse m rule (skip_block buffer b1) e1 pc children True
               = Some (Returned (Some r) b' errors')"
            by (simp add: parse_children.simps Let_def)
          then show ?thesis using ok by (rule children_ok)
        next
          case (Some child)
          from parse_ok out Returned Some have child: "consistent child" "scoped [] child"
            by auto
          from run True out Returned Some obtain child' where
            c': "add_parent_scope (name rule) child = Some child'"
            and rest: "parse_children buffer Term_parse m rule b1 e1 pc (children @ [child']) ef
               = Some (Returned (Some r) b' errors')"
            by (auto simp: parse_children.simps Let_def split: if_splits option.splits)
          from rest children_ok_append[OF ok child c'] show ?thesis by (rule children_ok)
        qed
      qed
    qed
  qed
qed

lemma parse_children_ok_0:
  assumes run: "parse_children buffer Term_parse 0 rule b errors pc children ef
        = Some (Returned (Some r) b' errors')"
    and ok: "children_ok rule children"
  shows "result_ok r"
  using assms
  by (auto simp: parse_children.simps Let_def children_ok_finish split: if_splits)

lemma parse_ok_from_children:
  assumes children_ok: "\<forall>rule b errors pc children ef r b' errors'.
      parse_children buffer Term_parse n rule b errors pc children ef
        = Some (Returned (Some r) b' errors') \<longrightarrow>
      children_ok rule children \<longrightarrow> result_ok r"
    and run: "parse buffer Term_parse n b errors pc = Some (Returned (Some r) b' errors')"
  shows "consistent r \<and> scoped [] r"
proof -
  have start: "children_ok (new_Rule p nm) []" for p nm
    by (simp add: children_ok_def new_Rule_def)
  have loop: "result_ok r"
    if "parse_children buffer Term_parse n (new_Rule p nm) b4 errors4 pc [] ef
          = Some (Returned (Some r) b' errors')" for p nm b4 errors4 ef
    using children_ok that start by blast
  from run show ?thesis
    by (auto simp: parse.simps Let_def result_ok_def
        split: if_splits option.splits prod.splits bool.splits outcome.splits
        dest!: loop)
qed

lemma parse_results_ok:
  "(\<forall>rule b errors pc children ef r b' errors'.
      parse_children buffer Term_parse n rule b errors pc children ef
        = Some (Returned (Some r) b' errors') \<longrightarrow>
      children_ok rule children \<longrightarrow> result_ok r) \<and>
   (\<forall>b errors pc r b' errors'.
      parse buffer Term_parse n b errors pc = Some (Returned (Some r) b' errors') \<longrightarrow>
      consistent r \<and> scoped [] r)"
proof (induction n)
  case 0
  have children: "\<forall>rule b errors pc children ef r b' errors'.
      parse_children buffer Term_parse 0 rule b errors pc children ef
        = Some (Returned (Some r) b' errors') \<longrightarrow>
      children_ok rule children \<longrightarrow> result_ok r"
    using parse_children_ok_0 by blast
  show ?case using children parse_ok_from_children[OF children] by blast
next
  case (Suc m)
  have children: "\<forall>rule b errors pc children ef r b' errors'.
      parse_children buffer Term_parse (Suc m) rule b errors pc children ef
        = Some (Returned (Some r) b' errors') \<longrightarrow>
      children_ok rule children \<longrightarrow> result_ok r"
  proof (intro allI impI)
    fix rule b errors pc children ef r b' errors'
    assume run: "parse_children buffer Term_parse (Suc m) rule b errors pc children ef
        = Some (Returned (Some r) b' errors')" and ok: "children_ok rule children"
    show "result_ok r"
    proof (rule parse_children_ok_step[OF _ _ run ok])
      fix b errors pc r b' errors'
      assume "parse buffer Term_parse m b errors pc = Some (Returned (Some r) b' errors')"
      then show "consistent r \<and> scoped [] r" using Suc.IH by blast
    next
      fix rule b errors pc children ef r b' errors'
      assume "parse_children buffer Term_parse m rule b errors pc children ef
        = Some (Returned (Some r) b' errors')" and "children_ok rule children"
      then show "result_ok r" using Suc.IH by blast
    qed
  qed
  show ?case using children parse_ok_from_children[OF children] by blast
qed

lemma parse_name_extension_loop:
  assumes "parse buffer Term_parse n b errors pc = Some (Returned (Some r) b' errors')"
    and "scan_name buffer n b [] = Some (nm, b1)"
    and "read_char buffer CHR '':'' (skip_space0 buffer b1) = (False, b2)"
  shows "\<exists>b4 errors4 ef.
     parse_children buffer Term_parse n (new_Rule (position b) nm) b4 errors4 pc [] ef
       = Some (Returned (Some r) b' errors')"
  using assms
  by (auto simp: parse.simps Let_def split: if_splits prod.splits bool.splits)

section \<open>The diagnostics sink\<close>

lemma sink_extended_iff: "sink_extended before after \<longleftrightarrow> (\<exists>x. after = before @ x)"
  unfolding sink_extended_def
  by (metis append_eq_conv_conj append_take_drop_id)

lemma sink_grown_iff: "sink_grown before after \<longleftrightarrow> (\<exists>x. x \<noteq> [] \<and> after = before @ x)"
proof
  assume "sink_grown before after"
  then obtain x where x: "after = before @ x" and "length before < length after"
    unfolding sink_grown_def sink_extended_iff by blast
  then have "x \<noteq> []" by auto
  with x show "\<exists>x. x \<noteq> [] \<and> after = before @ x" by blast
next
  assume "\<exists>x. x \<noteq> [] \<and> after = before @ x"
  then obtain x where "x \<noteq> []" and "after = before @ x" by blast
  then show "sink_grown before after" by (simp add: sink_grown_def sink_extended_def)
qed

lemma sink_extended_refl [simp]: "sink_extended e e"
  by (simp add: sink_extended_def)

lemma sink_extended_append [simp]: "sink_extended e (e @ x)"
  by (simp add: sink_extended_def)

lemma sink_extended_trans:
  assumes "sink_extended a b" and "sink_extended b c"
  shows "sink_extended a c"
proof -
  from assms obtain x y where "b = a @ x" and "c = b @ y"
    unfolding sink_extended_iff by blast
  then have "c = a @ (x @ y)" by simp
  then show ?thesis unfolding sink_extended_iff by blast
qed

lemma sink_grown_append [simp]: "sink_grown e (e @ [x])"
  by (simp add: sink_grown_def)

lemma sink_grown_extended:
  assumes "sink_grown a b" and "sink_extended b c"
  shows "sink_grown a c"
proof -
  from assms obtain x y where "x \<noteq> []" and "b = a @ x" and "c = b @ y"
    unfolding sink_grown_iff sink_extended_iff by blast
  then have "x @ y \<noteq> [] \<and> c = a @ (x @ y)" by simp
  then show ?thesis unfolding sink_grown_iff by blast
qed

lemma sink_grown_imp_extended: "sink_grown a b \<Longrightarrow> sink_extended a b"
  by (simp add: sink_grown_def)

lemma parse_children_errors_found:
  "parse_children buffer Term_parse n rule b errors pc children True
     \<noteq> Some (Returned (Some r) b' errors')"
proof (induction n arbitrary: b errors children)
  case 0
  show ?case by (simp add: parse_children.simps Let_def)
next
  case (Suc m)
  show ?case
    using Suc.IH
    by (auto simp: parse_children.simps[of _ _ "Suc m"] Let_def
        split: option.splits outcome.splits)
qed

lemma reported_after_failure:
  assumes "reported e1 True out" and "sink_grown errors e1"
  shows "reported errors ef out"
proof (cases out)
  case (Threw x b' e')
  then show ?thesis by (simp add: reported_def)
next
  case (Returned v b' e')
  show ?thesis
  proof (cases v)
    case None
    with assms(1) Returned have "sink_extended e1 e'" by (simp add: reported_def)
    with assms(2) have "sink_grown errors e'" by (rule sink_grown_extended)
    then show ?thesis using Returned None by (simp add: reported_def sink_grown_imp_extended)
  next
    case (Some r)
    with assms(1) Returned show ?thesis by (simp add: reported_def)
  qed
qed

lemma reported_children_0:
  "parse_children buffer Term_parse 0 rule b errors pc children ef = Some out \<Longrightarrow>
   reported errors ef out"
  by (auto simp: parse_children.simps Let_def reported_def split: if_splits)

lemma reported_children_step:
  assumes parse_ok: "\<forall>b errors pc out.
      parse buffer Term_parse m b errors pc = Some out \<longrightarrow> reported errors False out"
    and children_ok: "\<forall>rule b errors pc children ef out.
      parse_children buffer Term_parse m rule b errors pc children ef = Some out \<longrightarrow>
      reported errors ef out"
    and run: "parse_children buffer Term_parse (Suc m) rule b errors pc children ef = Some out"
  shows "reported errors ef out"
proof -
  let ?delta = "indentation_delta buffer (line_number (rule_position rule)) b"
  show ?thesis
  proof (cases "?delta = 4")
    case False
    with run show ?thesis
      by (auto simp: parse_children.simps[of _ _ "Suc m"] Let_def reported_def split: if_splits)
  next
    case True
    obtain res where res:
      "parse buffer Term_parse m (skip_whitespace buffer b) errors (pc + 1) = Some res"
      using run True by (cases "parse buffer Term_parse m (skip_whitespace buffer b) errors (pc + 1)")
        (auto simp: parse_children.simps[of _ _ "Suc m"] Let_def)
    with parse_ok have child: "reported errors False res" by blast
    show ?thesis
    proof (cases res)
      case (Threw x b1 e1)
      with run True res show ?thesis by (auto simp: parse_children.simps[of _ _ "Suc m"] Let_def reported_def)
    next
      case (Returned v b1 e1)
      show ?thesis
      proof (cases v)
        case None
        with run True res Returned have
          "parse_children buffer Term_parse m rule (skip_block buffer b1) e1 pc children True
             = Some out"
          by (simp add: parse_children.simps[of _ _ "Suc m"] Let_def)
        with children_ok have "reported e1 True out" by blast
        moreover from child Returned None have "sink_grown errors e1"
          by (simp add: reported_def)
        ultimately show ?thesis by (rule reported_after_failure)
      next
        case (Some child)
        from child Returned Some have e1: "e1 = errors" by (simp add: reported_def)
        from run True res Returned Some consider
          (thrown) "\<exists>x b' e'. out = Threw x b' e'"
          | (next_child) child' where
            "parse_children buffer Term_parse m rule b1 e1 pc (children @ [child']) ef = Some out"
          by (auto simp: parse_children.simps[of _ _ "Suc m"] Let_def split: if_splits option.splits)
        then show ?thesis
        proof cases
          case thrown
          then show ?thesis by (auto simp: reported_def)
        next
          case next_child
          with children_ok have "reported e1 ef out" by blast
          with e1 show ?thesis by simp
        qed
      qed
    qed
  qed
qed

lemma reported_parse_from_children:
  assumes tp: "Term_parse_reports Term_parse"
    and children_ok: "\<forall>rule b errors pc children ef out.
      parse_children buffer Term_parse n rule b errors pc children ef = Some out \<longrightarrow>
      reported errors ef out"
    and run: "parse buffer Term_parse n b errors pc = Some out"
  shows "reported errors False out"
proof -
  have loop: "reported e ef out"
    if "parse_children buffer Term_parse n rule b4 e pc children ef = Some out"
    for rule b4 e children ef
    using children_ok that by blast
  have term_ok: "errors' = errors"
    if "Term_parse b2 errors flag = Returned (Some t) b' errors'" for b2 flag t b' errors'
    using tp that unfolding Term_parse_reports_def by blast
  have term_failed: "sink_grown errors errors'"
    if "Term_parse b2 errors flag = Returned None b' errors'" for b2 flag b' errors'
    using tp that unfolding Term_parse_reports_def by blast
  have trailing: "reported errors False out" if "reported (errors @ [d]) True out" for d
    using that sink_grown_append by (rule reported_after_failure)
  have failure: "reported errors ef (Returned None b' errors')"
    if "sink_grown errors errors'" for ef b' errors'
    using that by (simp add: reported_def sink_grown_imp_extended)
  have threw: "reported errors ef (Threw x b' errors')" for ef x b' errors'
    by (simp add: reported_def)
  have success: "reported errors False (Returned (Some r) b' errors)" for r b'
    by (simp add: reported_def)
  from run show ?thesis
    by (auto simp: parse.simps Let_def failure threw success
        split: if_splits option.splits prod.splits bool.splits outcome.splits
        dest!: loop term_ok term_failed intro: trailing)
qed

lemma reported_results:
  assumes tp: "Term_parse_reports Term_parse"
  shows "(\<forall>rule b errors pc children ef out.
      parse_children buffer Term_parse n rule b errors pc children ef = Some out \<longrightarrow>
      reported errors ef out) \<and>
   (\<forall>b errors pc out.
      parse buffer Term_parse n b errors pc = Some out \<longrightarrow> reported errors False out)"
proof (induction n)
  case 0
  have children: "\<forall>rule b errors pc children ef out.
      parse_children buffer Term_parse 0 rule b errors pc children ef = Some out \<longrightarrow>
      reported errors ef out"
    using reported_children_0 by blast
  show ?case using children reported_parse_from_children[OF tp children] by blast
next
  case (Suc m)
  have children: "\<forall>rule b errors pc children ef out.
      parse_children buffer Term_parse (Suc m) rule b errors pc children ef = Some out \<longrightarrow>
      reported errors ef out"
    using Suc.IH reported_children_step[of buffer Term_parse m] by blast
  show ?case using children reported_parse_from_children[OF tp children] by blast
qed

lemma extended_children_0:
  "parse_children buffer Term_parse 0 rule b errors pc children ef = Some out \<Longrightarrow>
   sink_extended errors (diagnostics out)"
  by (auto simp: parse_children.simps Let_def split: if_splits)

lemma extended_children_step:
  assumes parse_ok: "\<forall>b errors pc out.
      parse buffer Term_parse m b errors pc = Some out \<longrightarrow>
      sink_extended errors (diagnostics out)"
    and children_ok: "\<forall>rule b errors pc children ef out.
      parse_children buffer Term_parse m rule b errors pc children ef = Some out \<longrightarrow>
      sink_extended errors (diagnostics out)"
    and run: "parse_children buffer Term_parse (Suc m) rule b errors pc children ef = Some out"
  shows "sink_extended errors (diagnostics out)"
proof -
  let ?delta = "indentation_delta buffer (line_number (rule_position rule)) b"
  show ?thesis
  proof (cases "?delta = 4")
    case False
    with run show ?thesis
      by (auto simp: parse_children.simps[of _ _ "Suc m"] Let_def split: if_splits)
  next
    case True
    obtain res where res:
      "parse buffer Term_parse m (skip_whitespace buffer b) errors (pc + 1) = Some res"
      using run True by (cases "parse buffer Term_parse m (skip_whitespace buffer b) errors (pc + 1)")
        (auto simp: parse_children.simps[of _ _ "Suc m"] Let_def)
    with parse_ok have child: "sink_extended errors (diagnostics res)" by blast
    from run True res consider
      (ended) "out = res"
      | (thrown) b1 e1 x where "out = Threw x b1 e1" and "diagnostics res = e1"
      | (continued) rule' b1 children' ef' where
        "parse_children buffer Term_parse m rule' b1 (diagnostics res) pc children' ef' = Some out"
      by (cases res)
        (auto simp: parse_children.simps[of _ _ "Suc m"] Let_def
          split: if_splits option.splits)
    then show ?thesis
    proof cases
      case ended
      with child show ?thesis by simp
    next
      case thrown
      with child show ?thesis by simp
    next
      case continued
      with children_ok have "sink_extended (diagnostics res) (diagnostics out)" by blast
      with child show ?thesis by (rule sink_extended_trans)
    qed
  qed
qed

lemma extended_parse_from_children:
  assumes tp: "Term_parse_appends Term_parse"
    and children_ok: "\<forall>rule b errors pc children ef out.
      parse_children buffer Term_parse n rule b errors pc children ef = Some out \<longrightarrow>
      sink_extended errors (diagnostics out)"
    and run: "parse buffer Term_parse n b errors pc = Some out"
  shows "sink_extended errors (diagnostics out)"
proof -
  have loop: "sink_extended e (diagnostics out)"
    if "parse_children buffer Term_parse n rule b4 e pc children ef = Some out"
    for rule b4 e children ef
    using children_ok that by blast
  have term_ok: "sink_extended errors errors'"
    if "Term_parse b2 errors flag = Returned v b' errors'" for b2 flag v b' errors'
    using tp that unfolding Term_parse_appends_def by (metis diagnostics.simps(2))
  have term_threw: "sink_extended errors errors'"
    if "Term_parse b2 errors flag = Threw x b' errors'" for b2 flag x b' errors'
    using tp that unfolding Term_parse_appends_def by (metis diagnostics.simps(1))
  have trailing: "sink_extended errors e" if "sink_extended (errors @ [d]) e" for d e
    using sink_extended_append that by (rule sink_extended_trans)
  from run show ?thesis
    by (auto simp: parse.simps Let_def
        split: if_splits option.splits prod.splits bool.splits outcome.splits
        dest!: loop term_ok term_threw intro: trailing)
qed

lemma extended_results:
  assumes tp: "Term_parse_appends Term_parse"
  shows "(\<forall>rule b errors pc children ef out.
      parse_children buffer Term_parse n rule b errors pc children ef = Some out \<longrightarrow>
      sink_extended errors (diagnostics out)) \<and>
   (\<forall>b errors pc out.
      parse buffer Term_parse n b errors pc = Some out \<longrightarrow>
      sink_extended errors (diagnostics out))"
proof (induction n)
  case 0
  have children: "\<forall>rule b errors pc children ef out.
      parse_children buffer Term_parse 0 rule b errors pc children ef = Some out \<longrightarrow>
      sink_extended errors (diagnostics out)"
    using extended_children_0 by blast
  show ?case using children extended_parse_from_children[OF tp children] by blast
next
  case (Suc m)
  have children: "\<forall>rule b errors pc children ef out.
      parse_children buffer Term_parse (Suc m) rule b errors pc children ef = Some out \<longrightarrow>
      sink_extended errors (diagnostics out)"
    using Suc.IH extended_children_step[of buffer Term_parse m] by blast
  show ?case using children extended_parse_from_children[OF tp children] by blast
qed

lemma reference_parse_reports: "Term_parse_reports reference_parse"
  by (auto simp: Term_parse_reports_def reference_parse_def Let_def split: if_splits)

lemma reference_parse_appends: "Term_parse_appends reference_parse"
  by (auto simp: Term_parse_appends_def reference_parse_def Let_def)

section \<open>Verified properties of \<open>Rule::parse\<close>\<close>

text \<open>
  C1, as amended. For every rule tree that \<open>parse\<close> returns, the scope of each rule lists
  the names of its enclosing name-extended rules from the innermost to the outermost
  (the rule's own name excluded): the scope of the root is empty, and the scope of a
  child is the name of its parent followed by the scope of its parent.
\<close>

theorem C1_scope_innermost_first:
  assumes "parse buffer Term_parse n b errors parent_count = Some (Returned (Some r) b' errors')"
  shows "scoped [] r"
  using assms parse_results_ok[of buffer Term_parse n] by blast

text \<open>
  C1, as stated, fails: parsing \<open>foo...\<close> containing \<open>bar...\<close> containing \<open>qux: a\<close> gives
  \<open>qux\<close> the scope \<open>["bar", "foo"]\<close>, not \<open>["foo", "bar"]\<close>: \<open>bar\<close> appends its name to \<open>qux\<close>
  when it accepts it, and \<open>foo\<close> appends its own afterwards.
\<close>

theorem C1_scope_order_counterexample:
  "parse source_buffer reference_parse 8
     (open_buffer [''foo...'', ''    bar...'', ''        qux: a'']) [] 0
   = Some (Returned
       (Some (Rule
          (Rule_vector
            [Rule
              (Rule_vector
                [Rule (Term_ptr (Some (Reference ''a'')))
                   \<lparr>line_number = 3, column_number = 9\<rparr> [''bar'', ''foo''] ''qux'' True])
              \<lparr>line_number = 2, column_number = 5\<rparr> [''foo''] ''bar'' False])
          \<lparr>line_number = 1, column_number = 1\<rparr> [] ''foo'' False))
       \<lparr>position = \<lparr>line_number = 3, column_number = 15\<rparr>,
          source_lines = [''foo...'', ''    bar...'', ''        qux: a'']\<rparr>
       [])
   \<and> \<not> scoped_outermost_first []
       (Rule
          (Rule_vector
            [Rule
              (Rule_vector
                [Rule (Term_ptr (Some (Reference ''a'')))
                   \<lparr>line_number = 3, column_number = 9\<rparr> [''bar'', ''foo''] ''qux'' True])
              \<lparr>line_number = 2, column_number = 5\<rparr> [''foo''] ''bar'' False])
          \<lparr>line_number = 1, column_number = 1\<rparr> [] ''foo'' False)"
  by code_simp

theorem C1_scope_innermost_first_witness:
  "scoped []
     (Rule
        (Rule_vector
          [Rule (Term_ptr (Some (Reference ''a'')))
             \<lparr>line_number = 2, column_number = 5\<rparr> [''foo''] ''bar'' True,
           Rule (Term_ptr (Some (Reference ''b'')))
             \<lparr>line_number = 3, column_number = 5\<rparr> [''foo''] ''baz'' True])
        \<lparr>line_number = 1, column_number = 1\<rparr> [] ''foo'' False)"
proof -
  have run: "parse source_buffer reference_parse 8
      (open_buffer [''foo...'', ''    bar: a'', ''    baz: b'']) [] 0
    = Some (Returned
       (Some (Rule
        (Rule_vector
          [Rule (Term_ptr (Some (Reference ''a'')))
             \<lparr>line_number = 2, column_number = 5\<rparr> [''foo''] ''bar'' True,
           Rule (Term_ptr (Some (Reference ''b'')))
             \<lparr>line_number = 3, column_number = 5\<rparr> [''foo''] ''baz'' True])
        \<lparr>line_number = 1, column_number = 1\<rparr> [] ''foo'' False))
       \<lparr>position = \<lparr>line_number = 3, column_number = 11\<rparr>,
          source_lines = [''foo...'', ''    bar: a'', ''    baz: b'']\<rparr>
       [])"
    by code_simp
  show ?thesis by (rule C1_scope_innermost_first[OF run])
qed

text \<open>
  C2. Every rule that \<open>parse\<close> returns is consistent, throughout its tree: a rule is
  terminal exactly when it holds a term, and not terminal exactly when it holds a
  non-empty vector of children. A rule returned from the name-extension form (the name
  is followed by \<open>...\<close>, not by \<open>:\<close>) has \<open>terminal = false\<close> and holds a non-empty vector
  of children.
\<close>

theorem C2_tag_agrees_with_payload:
  assumes "parse buffer Term_parse n b errors parent_count = Some (Returned (Some r) b' errors')"
  shows "consistent r \<and>
     (scan_name buffer n b [] = Some (nm, b1) \<longrightarrow>
      read_char buffer CHR '':'' (skip_space0 buffer b1) = (False, b2) \<longrightarrow>
      read_string buffer ''...'' b2 = (True, b3) \<longrightarrow>
      terminal r = False \<and>
      (case rule_value r of Rule_vector children \<Rightarrow> children \<noteq> [] | Term_ptr t \<Rightarrow> False))"
proof -
  have consistent: "consistent r"
    using assms parse_results_ok[of buffer Term_parse n] by blast
  have extension: "terminal r = False \<and>
      (case rule_value r of Rule_vector children \<Rightarrow> children \<noteq> [] | Term_ptr t \<Rightarrow> False)"
    if name: "scan_name buffer n b [] = Some (nm, b1)"
      and colon: "read_char buffer CHR '':'' (skip_space0 buffer b1) = (False, b2)"
  proof -
    from assms name colon obtain b4 errors4 ef where
      "parse_children buffer Term_parse n (new_Rule (position b) nm) b4 errors4 parent_count [] ef
         = Some (Returned (Some r) b' errors')"
      using parse_name_extension_loop by blast
    moreover have "children_ok (new_Rule (position b) nm) []"
      by (simp add: children_ok_def new_Rule_def)
    ultimately have "result_ok r" using parse_results_ok[of buffer Term_parse n] by blast
    then show ?thesis by (auto simp: result_ok_def)
  qed
  from consistent extension show ?thesis by blast
qed

theorem C2_tag_agrees_with_payload_witness:
  "consistent
     (Rule
        (Rule_vector
          [Rule (Term_ptr (Some (Reference ''a'')))
             \<lparr>line_number = 2, column_number = 5\<rparr> [''foo''] ''bar'' True])
        \<lparr>line_number = 1, column_number = 1\<rparr> [] ''foo'' False)
   \<and> terminal
     (Rule
        (Rule_vector
          [Rule (Term_ptr (Some (Reference ''a'')))
             \<lparr>line_number = 2, column_number = 5\<rparr> [''foo''] ''bar'' True])
        \<lparr>line_number = 1, column_number = 1\<rparr> [] ''foo'' False :: Term Rule) = False"
proof -
  let ?B = "open_buffer [''foo...'', ''    bar: a'']"
  let ?at = "\<lambda>c. \<lparr>position = \<lparr>line_number = 1, column_number = c\<rparr>,
                  source_lines = [''foo...'', ''    bar: a'']\<rparr>"
  have run: "parse source_buffer reference_parse 8 ?B [] 0
    = Some (Returned
       (Some (Rule
        (Rule_vector
          [Rule (Term_ptr (Some (Reference ''a'')))
             \<lparr>line_number = 2, column_number = 5\<rparr> [''foo''] ''bar'' True])
        \<lparr>line_number = 1, column_number = 1\<rparr> [] ''foo'' False))
       \<lparr>position = \<lparr>line_number = 2, column_number = 11\<rparr>,
          source_lines = [''foo...'', ''    bar: a'']\<rparr>
       [])"
    by code_simp
  have name: "scan_name source_buffer 8 ?B [] = Some (''foo'', ?at 4)"
    by code_simp
  have colon: "read_char source_buffer CHR '':'' (skip_space0 source_buffer (?at 4)) = (False, ?at 4)"
    by code_simp
  have dots: "read_string source_buffer ''...'' (?at 4) = (True, ?at 7)"
    by code_simp
  from C2_tag_agrees_with_payload[OF run, of "''foo''" "?at 4" "?at 4" "?at 7"] name colon dots
  show ?thesis by simp
qed

text \<open>
  C3, as amended. In a name-extension rule whose \<open>...\<close> is followed on its line by
  something other than the newline, \<open>parse\<close> appends \<open>trailing characters after '...'\<close>
  and goes on into the child loop (the diagnostic does not end the call), with the
  error flag already set. The call then never returns a rule, whatever its children do.
\<close>

theorem C3_trailing_characters:
  assumes "indentation buffer b mod 4 = 0" and "indentation buffer b = parent_count * 4"
    and "scan_name buffer n b [] = Some (nm, b1)" and "nm \<noteq> []"
    and "read_char buffer CHR '':'' (skip_space0 buffer b1) = (False, b2)"
    and "read_string buffer ''...'' b2 = (True, b3)"
    and "peek_char buffer CHR 0x0A (skip_space buffer True b3) = False"
  shows "parse buffer Term_parse n b errors parent_count =
       parse_children buffer Term_parse n (new_Rule (position b) nm) (skip_space buffer True b3)
         (errors @ [SyntaxError (''trailing characters after '...'' @ [CHR 0x27])
            (position (skip_space buffer True b3))])
         parent_count [] True
     \<and> parse buffer Term_parse n b errors parent_count \<noteq> Some (Returned (Some r) b' errors')"
proof -
  have enter: "parse buffer Term_parse n b errors parent_count =
       parse_children buffer Term_parse n (new_Rule (position b) nm) (skip_space buffer True b3)
         (errors @ [SyntaxError (''trailing characters after '...'' @ [CHR 0x27])
            (position (skip_space buffer True b3))])
         parent_count [] True"
    using assms by (simp add: parse.simps Let_def)
  then show ?thesis by (simp add: parse_children_errors_found)
qed

text \<open>
  C3, as stated, fails: \<open>foo... x\<close> followed by the child line \<open>bar: a\<close>. No child
  fails, and the call returns the failure sentinel, with the one diagnostic.
\<close>

theorem C3_trailing_characters_counterexample:
  "parse source_buffer reference_parse 8 (open_buffer [''foo... x'', ''    bar: a'']) [] 0 =
     Some (Returned None
       \<lparr>position = \<lparr>line_number = 1, column_number = 8\<rparr>,
          source_lines = [''foo... x'', ''    bar: a'']\<rparr>
       [SyntaxError (''trailing characters after '...'' @ [CHR 0x27])
          \<lparr>line_number = 1, column_number = 8\<rparr>])"
  by code_simp

theorem C3_trailing_characters_witness:
  "parse source_buffer reference_parse 8 (open_buffer [''foo... x'', ''    bar: a'']) [] 0 =
     parse_children source_buffer reference_parse 8
       (new_Rule \<lparr>line_number = 1, column_number = 1\<rparr> ''foo'')
       \<lparr>position = \<lparr>line_number = 1, column_number = 8\<rparr>,
          source_lines = [''foo... x'', ''    bar: a'']\<rparr>
       [SyntaxError (''trailing characters after '...'' @ [CHR 0x27])
          \<lparr>line_number = 1, column_number = 8\<rparr>]
       0 [] True
   \<and> parse source_buffer reference_parse 8 (open_buffer [''foo... x'', ''    bar: a'']) [] 0 \<noteq>
     Some (Returned (Some (new_Rule \<lparr>line_number = 1, column_number = 1\<rparr> ''foo''))
       (open_buffer [''foo... x'', ''    bar: a'']) [])"
proof -
  let ?L = "[''foo... x'', ''    bar: a'']"
  let ?at = "\<lambda>c. \<lparr>position = \<lparr>line_number = 1, column_number = c\<rparr>, source_lines = ?L\<rparr>"
  have h1: "indentation source_buffer (open_buffer ?L) mod 4 = 0" by code_simp
  have h2: "indentation source_buffer (open_buffer ?L) = 0 * 4" by code_simp
  have h3: "scan_name source_buffer 8 (open_buffer ?L) [] = Some (''foo'', ?at 4)"
    by code_simp
  have h4: "''foo'' \<noteq> []" by simp
  have h5: "read_char source_buffer CHR '':'' (skip_space0 source_buffer (?at 4)) = (False, ?at 4)"
    by code_simp
  have h6: "read_string source_buffer ''...'' (?at 4) = (True, ?at 7)" by code_simp
  have h7: "peek_char source_buffer CHR 0x0A (skip_space source_buffer True (?at 7)) = False"
    by code_simp
  have skipped: "skip_space source_buffer True (?at 7) = ?at 8" by code_simp
  have start: "position (open_buffer ?L) = \<lparr>line_number = 1, column_number = 1\<rparr>"
    by code_simp
  have at: "position (?at 8) = \<lparr>line_number = 1, column_number = 8\<rparr>"
    by simp
  note C3 = C3_trailing_characters[where Term_parse = reference_parse and errors = "[]"
      and r = "new_Rule \<lparr>line_number = 1, column_number = 1\<rparr> ''foo''"
      and b' = "open_buffer ?L" and errors' = "[]", OF h1 h2 h3 h4 h5 h6 h7,
      unfolded skipped start at append_Nil]
  show ?thesis by (rule C3)
qed

text \<open>
  C4. When the term sub-parser keeps to its interface (\<open>Term_parse_reports\<close>), every call
  of \<open>parse\<close> that returns a rule leaves the sink as it received it, and every call that
  returns the failure sentinel has appended at least one diagnostic to it. Calls that
  throw are not concerned.
\<close>

theorem C4_diagnostics_and_result:
  assumes "Term_parse_reports Term_parse"
    and "parse buffer Term_parse n b errors parent_count = Some (Returned result b' errors')"
  shows "(result \<noteq> None \<longrightarrow> errors' = errors) \<and> (result = None \<longrightarrow> sink_grown errors errors')"
proof -
  from assms have "reported errors False (Returned result b' errors')"
    using reported_results[of Term_parse buffer n] by blast
  then show ?thesis by (cases result) (auto simp: reported_def)
qed

theorem C4_diagnostics_and_result_witness:
  "parse source_buffer reference_parse 8 (open_buffer [''foo: 1'']) [] 0 =
     Some (Returned None
       \<lparr>position = \<lparr>line_number = 1, column_number = 7\<rparr>, source_lines = [''foo: 1'']\<rparr>
       [SyntaxError ''expected a term'' \<lparr>line_number = 1, column_number = 6\<rparr>])
   \<and> sink_grown [] [SyntaxError ''expected a term'' \<lparr>line_number = 1, column_number = 6\<rparr>]"
proof -
  have run: "parse source_buffer reference_parse 8 (open_buffer [''foo: 1'']) [] 0 =
     Some (Returned None
       \<lparr>position = \<lparr>line_number = 1, column_number = 7\<rparr>, source_lines = [''foo: 1'']\<rparr>
       [SyntaxError ''expected a term'' \<lparr>line_number = 1, column_number = 6\<rparr>])"
    by code_simp
  from C4_diagnostics_and_result[OF reference_parse_reports run]
  have "sink_grown [] [SyntaxError ''expected a term'' \<lparr>line_number = 1, column_number = 6\<rparr>]"
    by simp
  with run show ?thesis by simp
qed

text \<open>
  C5. When the indentation of the line is not a multiple of 4, \<open>parse\<close> returns the
  failure sentinel, with exactly one diagnostic \<open>invalid indentation level\<close> appended to
  the sink and the buffer as it was received: nothing of the line is consumed and
  \<open>skip_block\<close> is not called. This holds on any fuel, so the call does return.
\<close>

theorem C5_invalid_indentation_level:
  "indentation buffer b mod 4 \<noteq> 0 \<Longrightarrow>
   parse buffer Term_parse n b errors parent_count =
     Some (Returned None b (errors @ [SyntaxError ''invalid indentation level'' (position b)]))"
  by (simp add: parse.simps)

theorem C5_invalid_indentation_level_witness:
  "indentation source_buffer (open_buffer [''  foo: a'']) mod 4 \<noteq> 0 \<and>
   parse source_buffer reference_parse 0 (open_buffer [''  foo: a'']) [] 0 =
     Some (Returned None (open_buffer [''  foo: a''])
       [SyntaxError ''invalid indentation level'' \<lparr>line_number = 1, column_number = 1\<rparr>])"
proof -
  have h: "indentation source_buffer (open_buffer [''  foo: a'']) mod 4 \<noteq> 0"
    by code_simp
  from C5_invalid_indentation_level[OF h, of reference_parse 0 "[]" 0] h
  show ?thesis by (simp add: open_buffer_def)
qed

text \<open>
  C6. In the child loop of a name-extension rule, when the indentation delta of the next
  line relative to the rule's own line is positive but not 4, the call skips the
  whitespace, appends \<open>unexpected indentation increase\<close>, calls \<open>skip_block\<close> and returns
  the failure sentinel for the whole rule, whatever the line holds and whatever was
  collected before (the result of the loop is the result of \<open>parse\<close>).
\<close>

theorem C6_unexpected_indentation_increase:
  assumes "0 < indentation_delta buffer (line_number (rule_position rule)) b"
    and "indentation_delta buffer (line_number (rule_position rule)) b \<noteq> 4"
  shows "parse_children buffer Term_parse n rule b errors parent_count children errors_found =
     Some (Returned None (skip_block buffer (skip_whitespace buffer b))
       (errors @ [SyntaxError ''unexpected indentation increase''
          (position (skip_whitespace buffer b))]))"
  using assms by (simp add: parse_children.simps Let_def)

text \<open>
  The example: a child indented by 8 spaces directly under a depth-0
  extension. The loop starts after \<open>foo...\<close>, at column 7 of line 1.
\<close>

theorem C6_unexpected_indentation_increase_witness:
  "parse source_buffer reference_parse 8 (open_buffer [''foo...'', ''        bar: a'']) [] 0 =
     Some (Returned None
       \<lparr>position = \<lparr>line_number = 2, column_number = 15\<rparr>,
          source_lines = [''foo...'', ''        bar: a'']\<rparr>
       [SyntaxError ''unexpected indentation increase'' \<lparr>line_number = 2, column_number = 9\<rparr>])"
proof -
  let ?B = "\<lparr>position = \<lparr>line_number = 1, column_number = 7\<rparr>,
             source_lines = [''foo...'', ''        bar: a'']\<rparr>"
  let ?rule = "new_Rule \<lparr>line_number = 1, column_number = 1\<rparr> ''foo'' :: Term Rule"
  have enter: "parse source_buffer reference_parse 8
      (open_buffer [''foo...'', ''        bar: a'']) [] 0
    = parse_children source_buffer reference_parse 8 ?rule ?B [] 0 [] False"
    by code_simp
  have h1: "0 < indentation_delta source_buffer (line_number (rule_position ?rule)) ?B"
    by code_simp
  have h2: "indentation_delta source_buffer (line_number (rule_position ?rule)) ?B \<noteq> 4"
    by code_simp
  have skipped: "skip_block source_buffer (skip_whitespace source_buffer ?B)
      = \<lparr>position = \<lparr>line_number = 2, column_number = 15\<rparr>,
          source_lines = [''foo...'', ''        bar: a'']\<rparr>"
    by code_simp
  have at: "position (skip_whitespace source_buffer ?B) = \<lparr>line_number = 2, column_number = 9\<rparr>"
    by code_simp
  from C6_unexpected_indentation_increase[OF h1 h2, of reference_parse 8 "[]" 0 "[]" False]
  show ?thesis unfolding enter skipped at by simp
qed

text \<open>
  C7, as amended. For a name-extension rule whose \<open>...\<close> is followed by the newline (so no
  trailing-characters diagnostic was recorded) and whose child loop ends at its first
  check (the only way it ends with no child collected and no child failed), \<open>parse\<close>
  puts the buffer back at the position where the rule began, appends
  \<open>no children found for name-extended rule '<name>'\<close> at that position and returns the
  failure sentinel.
\<close>

theorem C7_no_children_found:
  assumes "indentation buffer b mod 4 = 0" and "indentation buffer b = parent_count * 4"
    and "scan_name buffer n b [] = Some (nm, b1)" and "nm \<noteq> []"
    and "read_char buffer CHR '':'' (skip_space0 buffer b1) = (False, b2)"
    and "read_string buffer ''...'' b2 = (True, b3)"
    and "peek_char buffer CHR 0x0A (skip_space buffer True b3)"
    and "indentation_delta buffer (line_number (position b)) (skip_space buffer True b3) \<le> 0"
  shows "parse buffer Term_parse n b errors parent_count =
     Some (Returned None ((skip_space buffer True b3)\<lparr>position := position b\<rparr>)
       (errors @ [SyntaxError
          (''no children found for name-extended rule '' @ [CHR 0x27] @ nm @ [CHR 0x27])
          (position b)]))"
  using assms by (simp add: parse.simps parse_children.simps Let_def new_Rule_def)

text \<open>
  C7, as stated, fails: on \<open>foo... x\<close> the child loop ends with no child collected and no
  child failed, and the sink holds the trailing-characters diagnostic only, not
  \<open>no children found\<close>.
\<close>

theorem C7_no_children_found_counterexample:
  "parse source_buffer reference_parse 8 (open_buffer [''foo... x'']) [] 0 =
     Some (Returned None
       \<lparr>position = \<lparr>line_number = 1, column_number = 8\<rparr>, source_lines = [''foo... x'']\<rparr>
       [SyntaxError (''trailing characters after '...'' @ [CHR 0x27])
          \<lparr>line_number = 1, column_number = 8\<rparr>])
   \<and> indentation_delta source_buffer 1
       \<lparr>position = \<lparr>line_number = 1, column_number = 8\<rparr>, source_lines = [''foo... x'']\<rparr> \<le> 0"
  by code_simp

theorem C7_no_children_found_witness:
  "parse source_buffer reference_parse 8 (open_buffer [''foo...'', '''']) [] 0 =
     Some (Returned None
       \<lparr>position = \<lparr>line_number = 1, column_number = 1\<rparr>, source_lines = [''foo...'', '''']\<rparr>
       [SyntaxError (''no children found for name-extended rule '' @ [CHR 0x27] @ ''foo'' @ [CHR 0x27])
          \<lparr>line_number = 1, column_number = 1\<rparr>])"
proof -
  let ?L = "[''foo...'', '''']"
  let ?at = "\<lambda>c. \<lparr>position = \<lparr>line_number = 1, column_number = c\<rparr>, source_lines = ?L\<rparr>"
  have h1: "indentation source_buffer (open_buffer ?L) mod 4 = 0" by code_simp
  have h2: "indentation source_buffer (open_buffer ?L) = 0 * 4" by code_simp
  have h3: "scan_name source_buffer 8 (open_buffer ?L) [] = Some (''foo'', ?at 4)"
    by code_simp
  have h4: "''foo'' \<noteq> []" by simp
  have h5: "read_char source_buffer CHR '':'' (skip_space0 source_buffer (?at 4)) = (False, ?at 4)"
    by code_simp
  have h6: "read_string source_buffer ''...'' (?at 4) = (True, ?at 7)" by code_simp
  have h7: "peek_char source_buffer CHR 0x0A (skip_space source_buffer True (?at 7))"
    by code_simp
  have h8: "indentation_delta source_buffer (line_number (position (open_buffer ?L)))
      (skip_space source_buffer True (?at 7)) \<le> 0"
    by code_simp
  have skipped: "skip_space source_buffer True (?at 7) = ?at 7" by code_simp
  have start: "position (open_buffer ?L) = \<lparr>line_number = 1, column_number = 1\<rparr>"
    by code_simp
  from C7_no_children_found[where Term_parse = reference_parse and errors = "[]",
      OF h1 h2 h3 h4 h5 h6 h7 h8]
  show ?thesis unfolding skipped start by simp
qed

text \<open>
  C8. When the recursive call for a child returns the failure sentinel, the loop calls
  \<open>skip_block\<close> on the buffer the child left and goes on with the next line, the
  children collected so far and the sink the child left, with the error flag set. The
  enclosing rule then never returns a rule, and when the loop ends with the flag set it
  returns the failure sentinel with the sink as it is, nothing added. When the term
  sub-parser only appends, the diagnostics of the failed child follow those recorded
  before it and precede those recorded after it.
\<close>

theorem C8_failed_child:
  assumes "indentation_delta buffer (line_number (rule_position rule)) b = 4"
    and "parse buffer Term_parse m (skip_whitespace buffer b) errors (parent_count + 1)
           = Some (Returned None b1 errors1)"
  shows "parse_children buffer Term_parse (Suc m) rule b errors parent_count children errors_found
       = parse_children buffer Term_parse m rule (skip_block buffer b1) errors1 parent_count
           children True
     \<and> parse_children buffer Term_parse (Suc m) rule b errors parent_count children errors_found
         \<noteq> Some (Returned (Some r) b' errors')
     \<and> (indentation_delta buffer (line_number (rule_position rule)) b_end \<le> 0 \<longrightarrow>
          parse_children buffer Term_parse k rule b_end errors_end parent_count children_end True
            = Some (Returned None b_end errors_end))
     \<and> (Term_parse_appends Term_parse \<longrightarrow>
          parse_children buffer Term_parse (Suc m) rule b errors parent_count children errors_found
            = Some out \<longrightarrow>
          sink_extended errors errors1 \<and> sink_extended errors1 (diagnostics out))"
proof -
  have step: "parse_children buffer Term_parse (Suc m) rule b errors parent_count children
        errors_found
       = parse_children buffer Term_parse m rule (skip_block buffer b1) errors1 parent_count
           children True"
    using assms by (simp add: parse_children.simps[of _ _ "Suc m"] Let_def)
  have fails: "parse_children buffer Term_parse (Suc m) rule b errors parent_count children
        errors_found \<noteq> Some (Returned (Some r) b' errors')"
    unfolding step by (rule parse_children_errors_found)
  have ends: "parse_children buffer Term_parse k rule b_end errors_end parent_count children_end True
            = Some (Returned None b_end errors_end)"
    if "indentation_delta buffer (line_number (rule_position rule)) b_end \<le> 0"
    using that by (simp add: parse_children.simps[of _ _ k] Let_def)
  have order: "sink_extended errors errors1 \<and> sink_extended errors1 (diagnostics out)"
    if tp: "Term_parse_appends Term_parse"
      and run: "parse_children buffer Term_parse (Suc m) rule b errors parent_count children
        errors_found = Some out"
  proof -
    from extended_results[OF tp, of buffer m] assms(2)
    have "sink_extended errors errors1"
      by (metis diagnostics.simps(2))
    moreover from extended_results[OF tp, of buffer m] run[unfolded step]
    have "sink_extended errors1 (diagnostics out)" by blast
    ultimately show ?thesis by simp
  qed
  from step fails ends order show ?thesis by blast
qed

theorem C8_failed_child_witness:
  "parse_children source_buffer reference_parse (Suc 7)
     (new_Rule \<lparr>line_number = 1, column_number = 1\<rparr> ''foo'')
     \<lparr>position = \<lparr>line_number = 1, column_number = 7\<rparr>,
        source_lines = [''foo...'', ''    bar: 1'', ''    baz= b'', ''    ok: a'']\<rparr>
     [] 0 [] False
   = Some (Returned None
       \<lparr>position = \<lparr>line_number = 4, column_number = 10\<rparr>,
          source_lines = [''foo...'', ''    bar: 1'', ''    baz= b'', ''    ok: a'']\<rparr>
       [SyntaxError ''expected a term'' \<lparr>line_number = 2, column_number = 10\<rparr>,
        SyntaxError (''expected ':' or '...'' @ [CHR 0x27]) \<lparr>line_number = 3, column_number = 8\<rparr>])
   \<and> sink_extended [] [SyntaxError ''expected a term'' \<lparr>line_number = 2, column_number = 10\<rparr>]
   \<and> sink_extended [SyntaxError ''expected a term'' \<lparr>line_number = 2, column_number = 10\<rparr>]
       [SyntaxError ''expected a term'' \<lparr>line_number = 2, column_number = 10\<rparr>,
        SyntaxError (''expected ':' or '...'' @ [CHR 0x27]) \<lparr>line_number = 3, column_number = 8\<rparr>]"
proof -
  let ?L = "[''foo...'', ''    bar: 1'', ''    baz= b'', ''    ok: a'']"
  let ?at = "\<lambda>l c. \<lparr>position = \<lparr>line_number = l, column_number = c\<rparr>, source_lines = ?L\<rparr>"
  let ?rule = "new_Rule \<lparr>line_number = 1, column_number = 1\<rparr> ''foo'' :: Term Rule"
  let ?d1 = "SyntaxError ''expected a term'' \<lparr>line_number = 2, column_number = 10\<rparr>"
  let ?d2 = "SyntaxError (''expected ':' or '...'' @ [CHR 0x27]) \<lparr>line_number = 3, column_number = 8\<rparr>"
  let ?out = "Returned None (?at 4 10) [?d1, ?d2] :: (Term Rule option, SourceBuffer) outcome"
  have h1: "indentation_delta source_buffer (line_number (rule_position ?rule)) (?at 1 7) = 4"
    by code_simp
  have h2: "parse source_buffer reference_parse 7 (skip_whitespace source_buffer (?at 1 7)) []
      (0 + 1) = Some (Returned None (?at 2 11) [?d1])"
    by code_simp
  have rest: "parse_children source_buffer reference_parse 7 ?rule
      (skip_block source_buffer (?at 2 11)) [?d1] 0 [] True = Some ?out"
    by code_simp
  have h3: "indentation_delta source_buffer (line_number (rule_position ?rule)) (?at 4 10) \<le> 0"
    by code_simp
  note C8 = C8_failed_child[where Term_parse = reference_parse and children = "[]"
      and errors_found = False and out = ?out and b_end = "?at 4 10" and errors_end = "[?d1, ?d2]"
      and children_end = "[]" and k = 0 and r = ?rule and b' = "?at 1 7" and errors' = "[]",
      OF h1 h2]
  from C8 rest have run: "parse_children source_buffer reference_parse (Suc 7) ?rule (?at 1 7)
      [] 0 [] False = Some ?out"
    by simp
  from C8 run reference_parse_appends have "sink_extended [] [?d1] \<and> sink_extended [?d1] [?d1, ?d2]"
    by simp
  with run show ?thesis by simp
qed

text \<open>
  C9. A terminal declaration \<open>foo: <term>\<close> at depth 0 (indentation 0, no parent): when
  the term sub-parser returns a term, \<open>parse\<close> returns a rule named \<open>foo\<close>, terminal, with
  an empty scope, positioned where the line began, and holding exactly that term. The
  buffer and the sink are as the sub-parser left them.
\<close>

theorem C9_terminal_rule:
  assumes "indentation buffer b = 0"
    and "scan_name buffer n b [] = Some (''foo'', b1)"
    and "read_char buffer CHR '':'' (skip_space0 buffer b1) = (True, b2)"
    and "Term_parse (skip_space buffer True b2) errors True = Returned (Some term) b3 errors3"
  shows "parse buffer Term_parse n b errors 0 =
     Some (Returned (Some (Rule (Term_ptr (Some term)) (position b) [] ''foo'' True)) b3 errors3)"
  using assms by (simp add: parse.simps)

theorem C9_terminal_rule_witness:
  "parse source_buffer reference_parse 3 (open_buffer [''foo: a'']) [] 0 =
     Some (Returned
       (Some (Rule (Term_ptr (Some (Reference ''a''))) \<lparr>line_number = 1, column_number = 1\<rparr> []
          ''foo'' True))
       \<lparr>position = \<lparr>line_number = 1, column_number = 7\<rparr>, source_lines = [''foo: a'']\<rparr> [])"
proof -
  let ?at = "\<lambda>c. \<lparr>position = \<lparr>line_number = 1, column_number = c\<rparr>, source_lines = [''foo: a'']\<rparr>"
  have h1: "indentation source_buffer (open_buffer [''foo: a'']) = 0"
    by code_simp
  have h2: "scan_name source_buffer 3 (open_buffer [''foo: a'']) [] = Some (''foo'', ?at 4)"
    by code_simp
  have h3: "read_char source_buffer CHR '':'' (skip_space0 source_buffer (?at 4)) = (True, ?at 5)"
    by code_simp
  have h4: "reference_parse (skip_space source_buffer True (?at 5)) [] True
      = Returned (Some (Reference ''a'')) (?at 7) []"
    by code_simp
  from C9_terminal_rule[where Term_parse = reference_parse, OF h1 h2 h3 h4] show ?thesis by (simp add: open_buffer_def)
qed

text \<open>
  C10. When both indentation checks pass and the line does not start with a character
  of \<open>[a-z_]\<close>, \<open>parse\<close> does not return: it throws \<open>ParseLogicError("no rule found")\<close>. The
  sink and the buffer are as they were received, and no failure sentinel is returned.
  This holds on any fuel.
\<close>

theorem C10_no_rule_found:
  assumes "indentation buffer b mod 4 = 0" and "indentation buffer b = parent_count * 4"
    and "\<not> is_name_character (peek buffer b)"
  shows "parse buffer Term_parse n b errors parent_count =
     Some (Threw (ParseLogicError ''no rule found'' (position b)) b errors)"
  using assms by (simp add: parse.simps scan_name.simps)

theorem C10_no_rule_found_witness:
  "parse source_buffer reference_parse 0 (open_buffer [''Foo: a'']) [] 0 =
     Some (Threw (ParseLogicError ''no rule found'' \<lparr>line_number = 1, column_number = 1\<rparr>)
       (open_buffer [''Foo: a'']) [])"
proof -
  have h1: "indentation source_buffer (open_buffer [''Foo: a'']) mod 4 = 0"
    by code_simp
  have h2: "indentation source_buffer (open_buffer [''Foo: a'']) = 0 * 4"
    by code_simp
  have h3: "\<not> is_name_character (peek source_buffer (open_buffer [''Foo: a'']))"
    by code_simp
  from C10_no_rule_found[OF h1 h2 h3, of reference_parse 0 "[]"]
  show ?thesis by (simp add: open_buffer_def)
qed

end
